theory Spec2Isabelle
  imports Complex_Main "HOL-Library.Word"
begin

section \<open>The simulated world of tcpchain.cc\<close>

text \<open>
  The program is one C++ file: the application class \<open>MyApp\<close> (a constant-bit-rate
  source of a bounded number of packets), two trace callbacks and \<open>main\<close>, which
  builds the topology and runs the simulator. The simulator, the socket and the helper
  classes belong to the ns-3 library. They are modelled only as far as \<open>MyApp\<close> and
  \<open>main\<close> use them: the event queue keeps pending events ordered by fire time and,
  for equal times, by the order of scheduling; a socket is the log of the calls made on it.

  Simulated time is a rational number of seconds. The source computes the send interval
  in \<open>double\<close>: the conversion of the bit rate and the division are modelled with
  their rounding to the nearest \<open>double\<close>, and the two special results of a division
  by zero are kept. The library then turns the \<open>double\<close> into a time of its clock.
  That conversion is not part of the program; the simulator carries it as
  \<open>sim_clock\<close>, and nothing is assumed of it except where a theorem says so.
\<close>

type_synonym time = rat
type_synonym uint32 = "32 word"
type_synonym uint64 = "64 word"

datatype ipv4 = Ipv4 nat nat nat nat

datatype address = Address_empty | InetSocketAddress ipv4 nat

datatype error = NullPointer | NonFiniteInterval

subsection \<open>Event scheduler\<close>

datatype callback = StartApplication_cb | StopApplication_cb | SendPacket_cb

record event =
  ev_ts :: time
  ev_uid :: nat
  ev_cb :: callback

record simulator =
  sim_now :: time
  sim_events :: "event list"
  sim_uid :: nat
  sim_clock :: "rat \<Rightarrow> time"

text \<open>An \<open>EventId\<close> is a handle on an event; the default-constructed one refers to none.\<close>

type_synonym EventId = "nat option"

text \<open>
  Modelled from the spec: the event scheduler (ns-3's \<open>Simulator\<close>), an external
  collaborator. Pending events are kept in the order in which they will fire: by time,
  and in the order of scheduling for equal times.
\<close>

fun insert_event :: "event \<Rightarrow> event list \<Rightarrow> event list" where
  "insert_event e [] = [e]"
| "insert_event e (x # xs) =
     (if ev_ts e < ev_ts x then e # x # xs else x # insert_event e xs)"

definition Schedule :: "time \<Rightarrow> callback \<Rightarrow> simulator \<Rightarrow> nat \<times> simulator" where
  "Schedule delay cb s =
     (sim_uid s,
      s\<lparr>sim_events :=
           insert_event \<lparr>ev_ts = sim_now s + delay, ev_uid = sim_uid s, ev_cb = cb\<rparr>
             (sim_events s),
        sim_uid := Suc (sim_uid s)\<rparr>)"

definition pending_uids :: "simulator \<Rightarrow> nat list" where
  "pending_uids s = map ev_uid (sim_events s)"

definition IsRunning :: "EventId \<Rightarrow> simulator \<Rightarrow> bool" where
  "IsRunning ev s = (case ev of None \<Rightarrow> False | Some u \<Rightarrow> u \<in> set (pending_uids s))"

definition Cancel :: "EventId \<Rightarrow> simulator \<Rightarrow> simulator" where
  "Cancel ev s =
     (case ev of
        None \<Rightarrow> s
      | Some u \<Rightarrow> s\<lparr>sim_events := filter (\<lambda>e. ev_uid e \<noteq> u) (sim_events s)\<rparr>)"

subsection \<open>The application object and the world around it\<close>

record MyApp =
  m_socket :: "nat option"
  m_peer :: address
  m_packetSize :: uint32
  m_nPackets :: uint32
  m_dataRate :: uint64
  m_sendEvent :: EventId
  m_running :: bool
  m_packetsSent :: uint32

datatype sock_call = Bind | Connect address | Send nat | Close

text \<open>What is written to an output stream: the operands of \<open><<\<close>, in order.\<close>

datatype item = Dbl rat | Str string | U32 uint32

record world =
  sim :: simulator
  app :: MyApp
  sock_log :: "(time \<times> nat \<times> sock_call) list"
  cwnd_stream :: "item list list"
  console :: "item list list"

text \<open>The constructor \<open>MyApp::MyApp\<close>.\<close>

definition MyApp_new :: MyApp where
  "MyApp_new =
     \<lparr>m_socket = None, m_peer = Address_empty, m_packetSize = 0, m_nPackets = 0,
      m_dataRate = 0, m_sendEvent = None, m_running = False, m_packetsSent = 0\<rparr>"

definition Setup ::
  "nat option \<Rightarrow> address \<Rightarrow> uint32 \<Rightarrow> uint32 \<Rightarrow> uint64 \<Rightarrow> MyApp \<Rightarrow> MyApp" where
  "Setup socket address packetSize nPackets dataRate a =
     a\<lparr>m_socket := socket, m_peer := address, m_packetSize := packetSize,
       m_nPackets := nPackets, m_dataRate := dataRate\<rparr>"

subsection \<open>The send interval\<close>

text \<open>
  A \<open>double\<close> has 53 significant bits. Rounding is to the nearest value, and to the
  even one of two equally near. The operands here are unsigned integers of at most 64
  bits and their quotients lie between \<open>2 ^ 32\<close> and \<open>1 / 2 ^ 64\<close>, far from the
  ends of the range of \<open>double\<close>.
\<close>

fun bit_length :: "nat \<Rightarrow> nat" where
  "bit_length n = (if n = 0 then 0 else Suc (bit_length (n div 2)))"

declare bit_length.simps [simp del]

definition round_half_even :: "rat \<Rightarrow> int" where
  "round_half_even x =
     (let f = \<lfloor>x\<rfloor>; r = x - rat_of_int f
      in if r < 1 / 2 then f else if 1 / 2 < r then f + 1 else if even f then f else f + 1)"

definition pow2 :: "int \<Rightarrow> rat" where
  "pow2 e = (if 0 \<le> e then 2 ^ nat e else 1 / 2 ^ nat (- e))"

text \<open>The conversion of an unsigned integer to \<open>double\<close>; the result is an integer again.\<close>

definition double_of_nat :: "nat \<Rightarrow> nat" where
  "double_of_nat n =
     (if bit_length n \<le> 53 then n
      else nat (round_half_even (rat_of_nat n / 2 ^ (bit_length n - 53))) *
           2 ^ (bit_length n - 53))"

text \<open>
  The \<open>double\<close> nearest to the quotient of two positive integers: \<open>e\<close> is the
  exponent of the quotient, which is scaled to 53 bits, rounded and scaled back.
\<close>

definition double_quot :: "nat \<Rightarrow> nat \<Rightarrow> rat" where
  "double_quot a b =
     (let q = rat_of_nat a / rat_of_nat b;
          d = int (bit_length a) - int (bit_length b);
          e = (if pow2 d \<le> q then d else d - 1)
      in rat_of_int (round_half_even (q / pow2 (e - 52))) * pow2 (e - 52))"

text \<open>
  The result of dividing one unsigned integer by another in \<open>double\<close>: a finite
  quotient, or, when the divisor is zero, infinity (positive dividend) or not-a-number
  (zero dividend).
\<close>

datatype fp = Finite rat | PosInf | NaN

definition fdiv :: "nat \<Rightarrow> nat \<Rightarrow> fp" where
  "fdiv a b =
     (if b = 0 then (if a = 0 then NaN else PosInf)
      else if a = 0 then Finite 0
      else Finite (double_quot (double_of_nat a) (double_of_nat b)))"

text \<open>
  \<open>m_packetSize * 8 / static_cast<double> (m_dataRate.GetBitRate ())\<close>: the product
  is computed in 32-bit unsigned arithmetic, then converted; the bit rate is a 64-bit
  unsigned value.
\<close>

definition tx_interval :: "uint32 \<Rightarrow> uint64 \<Rightarrow> fp" where
  "tx_interval packetSize dataRate = fdiv (unat (packetSize * 8)) (unat dataRate)"

text \<open>
  \<open>Seconds\<close> makes a simulator time of a \<open>double\<close> number of seconds, with the
  conversion of the simulator's clock; only a finite number is a time.
\<close>

definition Seconds :: "(rat \<Rightarrow> time) \<Rightarrow> fp \<Rightarrow> error + time" where
  "Seconds clock x =
     (case x of Finite q \<Rightarrow> Inr (clock q) | PosInf \<Rightarrow> Inl NonFiniteInterval
      | NaN \<Rightarrow> Inl NonFiniteInterval)"

text \<open>
  Two conversions for a clock that counts whole nanoseconds: one drops the fraction of a
  nanosecond, the other goes to the nearest nanosecond.
\<close>

definition ns_truncate :: "rat \<Rightarrow> time" where
  "ns_truncate q = rat_of_int \<lfloor>q * 1000000000\<rfloor> / 1000000000"



subsection \<open>The methods of MyApp\<close>

definition ScheduleTx :: "world \<Rightarrow> error + world" where
  "ScheduleTx w =
     (if m_running (app w) then
        (case Seconds (sim_clock (sim w))
                (tx_interval (m_packetSize (app w)) (m_dataRate (app w))) of
           Inl e \<Rightarrow> Inl e
         | Inr tNext \<Rightarrow>
             (case Schedule tNext SendPacket_cb (sim w) of
                (u, s') \<Rightarrow> Inr (w\<lparr>sim := s', app := (app w)\<lparr>m_sendEvent := Some u\<rparr>\<rparr>)))
      else Inr w)"

definition SendPacket :: "world \<Rightarrow> error + world" where
  "SendPacket w =
     (case m_socket (app w) of
        None \<Rightarrow> Inl NullPointer
      | Some sk \<Rightarrow>
          (let w1 = w\<lparr>sock_log := sock_log w @
                        [(sim_now (sim w), sk, Send (unat (m_packetSize (app w))))]\<rparr>;
               w2 = w1\<lparr>app := (app w1)\<lparr>m_packetsSent := m_packetsSent (app w1) + 1\<rparr>\<rparr>
           in if m_packetsSent (app w2) < m_nPackets (app w2) then ScheduleTx w2
              else Inr w2))"

definition StartApplication :: "world \<Rightarrow> error + world" where
  "StartApplication w =
     (let w1 = w\<lparr>app := (app w)\<lparr>m_running := True, m_packetsSent := 0\<rparr>\<rparr>
      in case m_socket (app w1) of
           None \<Rightarrow> Inl NullPointer
         | Some sk \<Rightarrow>
             SendPacket
               (w1\<lparr>sock_log := sock_log w1 @
                     [(sim_now (sim w1), sk, Bind),
                      (sim_now (sim w1), sk, Connect (m_peer (app w1)))]\<rparr>))"

definition StopApplication :: "world \<Rightarrow> world" where
  "StopApplication w =
     (let w1 = w\<lparr>app := (app w)\<lparr>m_running := False\<rparr>\<rparr>;
          w2 = (if IsRunning (m_sendEvent (app w1)) (sim w1)
                then w1\<lparr>sim := Cancel (m_sendEvent (app w1)) (sim w1)\<rparr> else w1)
      in case m_socket (app w2) of
           None \<Rightarrow> w2
         | Some sk \<Rightarrow> w2\<lparr>sock_log := sock_log w2 @ [(sim_now (sim w2), sk, Close)]\<rparr>)"

subsection \<open>Running the scheduler\<close>

fun dispatch :: "callback \<Rightarrow> world \<Rightarrow> error + world" where
  "dispatch StartApplication_cb w = StartApplication w"
| "dispatch StopApplication_cb w = Inr (StopApplication w)"
| "dispatch SendPacket_cb w = SendPacket w"

text \<open>
  Modelled from the spec: one turn of the scheduler. The earliest pending event leaves
  the queue, the clock jumps to its time and its callback runs to completion.
\<close>

definition fire :: "event \<Rightarrow> event list \<Rightarrow> world \<Rightarrow> error + world" where
  "fire e es w =
     dispatch (ev_cb e) (w\<lparr>sim := (sim w)\<lparr>sim_now := ev_ts e, sim_events := es\<rparr>\<rparr>)"

text \<open>
  Modelled from the spec: \<open>Simulator::Run\<close>, bounded by a horizon. Events fire in
  queue order as long as their time is not after the horizon; the run ends when the
  queue is empty or its head lies beyond the horizon. The first argument bounds the
  number of events fired; \<open>None\<close> means that the bound was reached with work left.
\<close>

fun Run :: "nat \<Rightarrow> time \<Rightarrow> world \<Rightarrow> (error + world) option" where
  "Run n horizon w =
     (case sim_events (sim w) of
        [] \<Rightarrow> Some (Inr w)
      | e # es \<Rightarrow>
          if horizon < ev_ts e then Some (Inr w)
          else (case n of
                  0 \<Rightarrow> None
                | Suc m \<Rightarrow>
                    (case fire e es w of
                       Inl err \<Rightarrow> Some (Inl err)
                     | Inr w' \<Rightarrow> Run m horizon w')))"

declare Run.simps [simp del]

text \<open>
  Modelled from the spec: the driver gives the application a start and a stop time. Both
  events are scheduled, start first, before the run begins at time 0, so they precede
  every event the application schedules for the same instant. The initial world has a
  clock that truncates to nanoseconds; \<open>install_on\<close> sets the scene up for any clock.
\<close>

definition initial_world :: world where
  "initial_world =
     \<lparr>sim = \<lparr>sim_now = 0, sim_events = [], sim_uid = 0, sim_clock = ns_truncate\<rparr>,
      app = MyApp_new, sock_log = [], cwnd_stream = [], console = []\<rparr>"

definition install_on :: "(rat \<Rightarrow> time) \<Rightarrow> MyApp \<Rightarrow> time \<Rightarrow> time \<Rightarrow> world" where
  "install_on clock a start stop =
     (case Schedule start StartApplication_cb ((sim initial_world)\<lparr>sim_clock := clock\<rparr>) of
        (u1, s1) \<Rightarrow>
          (case Schedule stop StopApplication_cb s1 of
             (u2, s2) \<Rightarrow> initial_world\<lparr>sim := s2, app := a\<rparr>))"

definition install :: "MyApp \<Rightarrow> time \<Rightarrow> time \<Rightarrow> world" where
  "install a start stop =
     (case Schedule start StartApplication_cb (sim initial_world) of
        (u1, s1) \<Rightarrow>
          (case Schedule stop StopApplication_cb s1 of
             (u2, s2) \<Rightarrow> initial_world\<lparr>sim := s2, app := a\<rparr>))"

subsection \<open>What an observer of a world sees\<close>

fun is_Send :: "sock_call \<Rightarrow> bool" where
  "is_Send (Send n) = True"
| "is_Send c = False"

definition tx_times :: "world \<Rightarrow> time list" where
  "tx_times w = map fst (filter (\<lambda>c. is_Send (snd (snd c))) (sock_log w))"

definition packets_sent :: "world \<Rightarrow> nat" where
  "packets_sent w = length (tx_times w)"

definition pending_sends :: "world \<Rightarrow> nat" where
  "pending_sends w = length (filter (\<lambda>e. ev_cb e = SendPacket_cb) (sim_events (sim w)))"

definition run_tx_times :: "nat \<Rightarrow> time \<Rightarrow> world \<Rightarrow> time list option" where
  "run_tx_times n horizon w =
     (case Run n horizon w of Some (Inr w') \<Rightarrow> Some (tx_times w') | _ \<Rightarrow> None)"


subsection \<open>The states a run passes through\<close>

definition start_ev :: "time \<Rightarrow> event" where
  "start_ev s = \<lparr>ev_ts = s, ev_uid = 0, ev_cb = StartApplication_cb\<rparr>"

definition stop_ev :: "time \<Rightarrow> event" where
  "stop_ev e = \<lparr>ev_ts = e, ev_uid = 1, ev_cb = StopApplication_cb\<rparr>"

definition send_ev :: "time \<Rightarrow> nat \<Rightarrow> event" where
  "send_ev t u = \<lparr>ev_ts = t, ev_uid = u, ev_cb = SendPacket_cb\<rparr>"

definition sends :: "MyApp \<Rightarrow> nat \<Rightarrow> time \<Rightarrow> time \<Rightarrow> nat \<Rightarrow> (time \<times> nat \<times> sock_call) list" where
  "sends a sk I s k =
     map (\<lambda>j. (s + rat_of_nat j * I, sk, Send (unat (m_packetSize a)))) [0..<k]"

text \<open>
  The world right after the \<open>k\<close>-th packet of a run that started at \<open>s\<close>, stops at
  \<open>e\<close> and sends every \<open>I\<close> seconds.
\<close>

definition mid ::
  "(rat \<Rightarrow> time) \<Rightarrow> MyApp \<Rightarrow> nat \<Rightarrow> time \<Rightarrow> time \<Rightarrow> time \<Rightarrow> nat \<Rightarrow> world" where
  "mid c a sk I s e k =
     \<lparr>sim = \<lparr>sim_now = s + rat_of_nat (k - 1) * I,
             sim_events =
               (if k < unat (m_nPackets a)
                then insert_event (send_ev (s + rat_of_nat k * I) (Suc k)) [stop_ev e]
                else [stop_ev e]),
             sim_uid = 2 + min k (unat (m_nPackets a) - 1),
             sim_clock = c\<rparr>,
      app = a\<lparr>m_sendEvent :=
                 (if unat (m_nPackets a) \<le> 1 then m_sendEvent a
                  else Some (Suc (min k (unat (m_nPackets a) - 1)))),
               m_running := True, m_packetsSent := of_nat k\<rparr>,
      sock_log = (s, sk, Bind) # (s, sk, Connect (m_peer a)) # sends a sk I s k,
      cwnd_stream = [], console = []\<rparr>"

text \<open>The world after the stop event of that run, \<open>k\<close> packets having been sent.\<close>

definition fin ::
  "(rat \<Rightarrow> time) \<Rightarrow> MyApp \<Rightarrow> nat \<Rightarrow> time \<Rightarrow> time \<Rightarrow> time \<Rightarrow> nat \<Rightarrow> world" where
  "fin c a sk I s e k =
     (mid c a sk I s e k)
       \<lparr>sim := (sim (mid c a sk I s e k))\<lparr>sim_now := e, sim_events := []\<rparr>,
        app := (app (mid c a sk I s e k))\<lparr>m_running := False\<rparr>,
        sock_log := sock_log (mid c a sk I s e k) @ [(e, sk, Close)]\<rparr>"

subsection \<open>The life cycle of the application\<close>

datatype phase = Created | Configured | Running | Stopped

text \<open>
  The operations reach the application in the order of its life cycle: one \<open>Setup\<close> of a
  fresh object with a positive packet count, one start, the send events the scheduler
  fires, and a stop, which may come at any point and any number of times. Time never
  runs backwards.
\<close>

definition at_time :: "time \<Rightarrow> world \<Rightarrow> world" where
  "at_time t w = w\<lparr>sim := (sim w)\<lparr>sim_now := t\<rparr>\<rparr>"

inductive lifecycle :: "phase \<Rightarrow> world \<Rightarrow> bool" where
  created:
    "app w = MyApp_new \<Longrightarrow> sim_events (sim w) = [] \<Longrightarrow> lifecycle Created w"
| configure:
    "lifecycle Created w \<Longrightarrow> 0 < nPackets \<Longrightarrow>
     lifecycle Configured
       (w\<lparr>app := Setup socket address packetSize nPackets dataRate (app w)\<rparr>)"
| onStart:
    "lifecycle Configured w \<Longrightarrow> sim_now (sim w) \<le> t \<Longrightarrow>
     StartApplication (at_time t w) = Inr w' \<Longrightarrow> lifecycle Running w'"
| sendStep:
    "lifecycle Running w \<Longrightarrow> sim_events (sim w) = e # es \<Longrightarrow> fire e es w = Inr w' \<Longrightarrow>
     lifecycle Running w'"
| onStop:
    "lifecycle p w \<Longrightarrow> sim_now (sim w) \<le> t \<Longrightarrow>
     lifecycle Stopped (StopApplication (at_time t w))"

text \<open>What the life cycle maintains, phase by phase.\<close>

definition queue_ok :: "world \<Rightarrow> bool" where
  "queue_ok w =
     (case sim_events (sim w) of
        [] \<Rightarrow> True
      | [ev] \<Rightarrow> ev_cb ev = SendPacket_cb \<and> m_sendEvent (app w) = Some (ev_uid ev) \<and>
                m_running (app w) \<and> m_packetsSent (app w) < m_nPackets (app w)
      | _ \<Rightarrow> False)"

fun phase_ok :: "phase \<Rightarrow> world \<Rightarrow> bool" where
  "phase_ok Created w = (m_packetsSent (app w) = 0 \<and> sim_events (sim w) = [])"
| "phase_ok Configured w =
     (m_packetsSent (app w) = 0 \<and> sim_events (sim w) = [] \<and> 0 < m_nPackets (app w))"
| "phase_ok Running w = (0 < m_nPackets (app w))"
| "phase_ok Stopped w = (sim_events (sim w) = [])"

definition lifecycle_inv :: "phase \<Rightarrow> world \<Rightarrow> bool" where
  "lifecycle_inv p w =
     (m_packetsSent (app w) \<le> m_nPackets (app w) \<and> queue_ok w \<and> phase_ok p w)"

text \<open>Sequencing of fallible steps, and the scheduler firing its earliest event.\<close>

definition and_then :: "error + world \<Rightarrow> (world \<Rightarrow> error + world) \<Rightarrow> error + world" where
  "and_then r f = (case r of Inl err \<Rightarrow> Inl err | Inr w \<Rightarrow> f w)"

definition fire_next :: "world \<Rightarrow> error + world" where
  "fire_next w = (case sim_events (sim w) of [] \<Rightarrow> Inr w | e # es \<Rightarrow> fire e es w)"

text \<open>The sent counter and the number of pending send events, when a step succeeded.\<close>

definition observe :: "error + world \<Rightarrow> (uint32 \<times> nat) option" where
  "observe r =
     (case r of Inl err \<Rightarrow> None | Inr w \<Rightarrow> Some (m_packetsSent (app w), pending_sends w))"

text \<open>
  The world right after the start, at time 0, of the application that \<open>main\<close> sets up,
  on a clock that truncates to nanoseconds: the next packet is due after 8319999 ns.
\<close>

definition started_world :: world where
  "started_world =
     \<lparr>sim = \<lparr>sim_now = 0,
             sim_events =
               [\<lparr>ev_ts = 8319999 / 1000000000, ev_uid = 0, ev_cb = SendPacket_cb\<rparr>],
             sim_uid = 1, sim_clock = ns_truncate\<rparr>,
      app = \<lparr>m_socket = Some 0, m_peer = InetSocketAddress (Ipv4 10 0 0 2) 1090,
             m_packetSize = 1040, m_nPackets = 1000, m_dataRate = 1000000,
             m_sendEvent = Some 0, m_running = True, m_packetsSent = 1\<rparr>,
      sock_log = [(0, 0, Bind), (0, 0, Connect (InetSocketAddress (Ipv4 10 0 0 2) 1090)),
                  (0, 0, Send 1040)],
      cwnd_stream = [], console = []\<rparr>"

subsection \<open>The congestion-window observer\<close>

text \<open>
  \<open>CwndChange\<close> writes one line to the console (\<open>NS_LOG_UNCOND\<close>) and one to the
  stream it was bound to, each ended by a newline. The separator is a tab.
\<close>

definition tab :: string where
  "tab = [CHR 0x09]"

definition CwndChange :: "uint32 \<Rightarrow> uint32 \<Rightarrow> world \<Rightarrow> world" where
  "CwndChange oldCwnd newCwnd w =
     (let w1 = w\<lparr>console := console w @ [[Dbl (sim_now (sim w)), Str tab, U32 newCwnd]]\<rparr>
      in w1\<lparr>cwnd_stream := cwnd_stream w1 @
               [[Dbl (sim_now (sim w1)), Str tab, U32 oldCwnd, Str tab, U32 newCwnd]]\<rparr>)"

subsection \<open>The scenario assembled by main\<close>

text \<open>
  Modelled from the spec: the helper classes of the library that \<open>main\<close> calls, as far
  as the scenario depends on them. A node container lists node numbers, given out in the
  order of creation. \<open>Install\<close> puts one device on each node of the container and
  attaches them to one new channel. \<open>Assign\<close> numbers the devices of a container from 1
  within the current address block. \<open>Get\<close> and \<open>GetAddress\<close> fail out of range.
\<close>

type_synonym NodeContainer = "nat list"

record PointToPointHelper =
  p2p_DataRate :: string
  p2p_Delay :: string

record NetDevice =
  nd_node :: nat
  nd_channel :: nat
  nd_DataRate :: string
  nd_Delay :: string

definition Install :: "PointToPointHelper \<Rightarrow> nat \<Rightarrow> NodeContainer \<Rightarrow> NetDevice list" where
  "Install h ch c =
     map (\<lambda>n. \<lparr>nd_node = n, nd_channel = ch, nd_DataRate = p2p_DataRate h,
                nd_Delay = p2p_Delay h\<rparr>) c"

definition Get :: "'a list \<Rightarrow> nat \<Rightarrow> 'a option" where
  "Get c i = (if i < length c then Some (c ! i) else None)"

fun host :: "ipv4 \<Rightarrow> nat \<Rightarrow> ipv4" where
  "host (Ipv4 a b c d) k = Ipv4 a b c (d + k)"

fun assign_from :: "ipv4 \<Rightarrow> nat \<Rightarrow> NetDevice list \<Rightarrow> (NetDevice \<times> ipv4) list" where
  "assign_from base k [] = []"
| "assign_from base k (d # ds) = (d, host base k) # assign_from base (k + 1) ds"

definition Assign :: "ipv4 \<Rightarrow> NetDevice list \<Rightarrow> (NetDevice \<times> ipv4) list" where
  "Assign base ndc = assign_from base 1 ndc"

definition GetAddress :: "(NetDevice \<times> ipv4) list \<Rightarrow> nat \<Rightarrow> ipv4 option" where
  "GetAddress ifc i = map_option snd (Get ifc i)"

definition GetAny :: ipv4 where
  "GetAny = Ipv4 0 0 0 0"

record scenario =
  sc_nodes :: "nat list"
  sc_links :: "NetDevice list list"
  sc_rx_error :: "(NetDevice \<times> rat) list"
  sc_blocks :: "ipv4 list"
  sc_ifaces :: "(NetDevice \<times> ipv4) list"
  sc_sinks :: "(nat \<times> address) list"
  sc_sockets :: "(nat \<times> nat) list"
  sc_generators :: "(nat \<times> MyApp) list"
  sc_start :: time
  sc_stop :: time

text \<open>
  \<open>main\<close>, statement by statement: four containers of one node each; three helpers
  with the same attributes; three links; the error model with rate 0.00001 on the second
  device of the first link; three address blocks; the sink on \<open>term_3\<close>; the socket
  created on \<open>term_3\<close>; the application set up with the second address of the first
  link as its peer, 1040 bytes, 1000 packets and 1 Mbps, added to \<open>term_3\<close>, with start
  time 0 and stop time 20.
\<close>

definition main_scenario :: "scenario option" where
  "main_scenario =
     (let term_0 = [0::nat]; term_1 = [1::nat]; term_2 = [2::nat]; term_3 = [3::nat];
          pointToPoint_1 = \<lparr>p2p_DataRate = ''5Mbps'', p2p_Delay = ''2ms''\<rparr>;
          pointToPoint_2 = \<lparr>p2p_DataRate = ''5Mbps'', p2p_Delay = ''2ms''\<rparr>;
          pointToPoint_3 = \<lparr>p2p_DataRate = ''5Mbps'', p2p_Delay = ''2ms''\<rparr>;
          all_hub_3 = term_0 @ term_1;
          ndc_hub_3 = Install pointToPoint_1 0 all_hub_3;
          all_hub_4 = term_1 @ term_2;
          ndc_hub_4 = Install pointToPoint_2 1 all_hub_4;
          all_hub_5 = term_2 @ term_3;
          ndc_hub_5 = Install pointToPoint_3 2 all_hub_5;
          em = (1 / 100000 :: rat);
          iface_ndc_hub_3 = Assign (Ipv4 10 0 0 0) ndc_hub_3;
          iface_ndc_hub_4 = Assign (Ipv4 10 0 1 0) ndc_hub_4;
          iface_ndc_hub_5 = Assign (Ipv4 10 0 2 0) ndc_hub_5;
          port_tcp_0 = (1090::nat);
          sinkLocalAddress_tcp_0 = InetSocketAddress GetAny port_tcp_0;
          ns3TcpSocket = (0::nat)
      in case Get ndc_hub_3 1 of
           None \<Rightarrow> None
         | Some lossy \<Rightarrow>
             (case GetAddress iface_ndc_hub_3 1 of
                None \<Rightarrow> None
              | Some ip \<Rightarrow>
                  (case Get term_3 0 of
                     None \<Rightarrow> None
                   | Some n3 \<Rightarrow>
                       Some
                         \<lparr>sc_nodes = term_0 @ term_1 @ term_2 @ term_3,
                          sc_links = [ndc_hub_3, ndc_hub_4, ndc_hub_5],
                          sc_rx_error = [(lossy, em)],
                          sc_blocks = [Ipv4 10 0 0 0, Ipv4 10 0 1 0, Ipv4 10 0 2 0],
                          sc_ifaces = iface_ndc_hub_3 @ iface_ndc_hub_4 @ iface_ndc_hub_5,
                          sc_sinks = map (\<lambda>n. (n, sinkLocalAddress_tcp_0)) term_3,
                          sc_sockets = [(ns3TcpSocket, n3)],
                          sc_generators =
                            [(n3, Setup (Some ns3TcpSocket) (InetSocketAddress ip port_tcp_0)
                                    1040 1000 1000000 MyApp_new)],
                          sc_start = 0, sc_stop = 20\<rparr>)))"

text \<open>The nodes that own an address, and whether a sink accepts connections to one.\<close>

definition nodes_of_ip :: "scenario \<Rightarrow> ipv4 \<Rightarrow> nat list" where
  "nodes_of_ip sc ip = map (\<lambda>x. nd_node (fst x)) (filter (\<lambda>x. snd x = ip) (sc_ifaces sc))"

fun sink_listens_at :: "scenario \<Rightarrow> nat \<times> address \<Rightarrow> address \<Rightarrow> bool" where
  "sink_listens_at sc (n, InetSocketAddress lip lport) (InetSocketAddress ip port) =
     (lport = port \<and> (lip = GetAny \<or> lip = ip) \<and> n \<in> set (nodes_of_ip sc ip))"
| "sink_listens_at sc sink peer = False"

text \<open>
  The spec's scenario, in its words: one sink, one generator, and the generator's peer
  address is one at which the sink listens, on another node than the generator's.
\<close>

definition flow_reaches_sink :: "scenario \<Rightarrow> bool" where
  "flow_reaches_sink sc =
     (case (sc_sinks sc, sc_generators sc) of
        ([sink], [(gen_node, a)]) \<Rightarrow>
          sink_listens_at sc sink (m_peer a) \<and> fst sink \<noteq> gen_node
      | _ \<Rightarrow> False)"

text \<open>
  The address block of an address under the mask 255.255.255.0, and a chain: the links
  join each node to the next one, in order.
\<close>

fun block_of :: "ipv4 \<Rightarrow> ipv4" where
  "block_of (Ipv4 a b c d) = Ipv4 a b c 0"

definition is_chain :: "scenario \<Rightarrow> bool" where
  "is_chain sc =
     (map (map nd_node) (sc_links sc) =
      map (\<lambda>p. [fst p, snd p]) (zip (sc_nodes sc) (tl (sc_nodes sc))))"


section \<open>A run, step by step\<close>

text \<open>
  With the start event before the stop event, the queue first holds these two. Firing the
  start event gives the world after the first packet; each send event leads from the
  world after packet \<open>k\<close> to the one after packet \<open>k + 1\<close>; the stop event ends
  the run, cancelling the send event if one is pending.
\<close>

lemma install_eq:
  "s \<le> e \<Longrightarrow>
   install_on c a s e =
     \<lparr>sim = \<lparr>sim_now = 0, sim_events = [start_ev s, stop_ev e], sim_uid = 2,
             sim_clock = c\<rparr>,
      app = a, sock_log = [], cwnd_stream = [], console = []\<rparr>"
  by (simp add: install_on_def initial_world_def Schedule_def start_ev_def stop_ev_def)

lemma install_default: "install a s e = install_on ns_truncate a s e"
  by (simp add: install_def install_on_def initial_world_def)

lemma word_succ_less:
  fixes n :: uint32
  assumes "k < unat n"
  shows "(of_nat k + 1 < n) = (Suc k < unat n)"
proof -
  have "Suc k \<le> unat n" using assms by simp
  then have "unat (of_nat (Suc k) :: uint32) = Suc k" by (rule le_unat_uoi)
  moreover have "(of_nat k + 1 :: uint32) = of_nat (Suc k)" by simp
  ultimately show ?thesis by (simp only: word_less_nat_alt)
qed

lemma sends_Suc: "sends a sk I s (Suc k) = sends a sk I s k @ [(s + rat_of_nat k * I, sk, Send (unat (m_packetSize a)))]"
  by (simp add: sends_def)

lemma fire_start:
  assumes "m_socket a = Some sk" "0 < unat (m_nPackets a)"
    and "Seconds c (tx_interval (m_packetSize a) (m_dataRate a)) = Inr I" "s \<le> e"
  shows "fire (start_ev s) [stop_ev e] (install_on c a s e) = Inr (mid c a sk I s e 1)"
proof (cases "1 < unat (m_nPackets a)")
  case True
  then have "(1::uint32) < m_nPackets a" by (simp add: word_less_nat_alt)
  with True assms show ?thesis
    by (simp add: fire_def install_eq start_ev_def StartApplication_def SendPacket_def
        ScheduleTx_def Schedule_def mid_def sends_def send_ev_def Let_def)
next
  case False
  then have "\<not> (1::uint32) < m_nPackets a" by (simp add: word_less_nat_alt)
  with False assms show ?thesis
    by (simp add: fire_def install_eq start_ev_def StartApplication_def SendPacket_def
        mid_def sends_def Let_def)
qed

lemma fire_send:
  assumes "m_socket a = Some sk" "0 < k" "k < unat (m_nPackets a)"
    and "Seconds c (tx_interval (m_packetSize a) (m_dataRate a)) = Inr I"
  shows "fire (send_ev (s + rat_of_nat k * I) (Suc k)) [stop_ev e] (mid c a sk I s e k)
           = Inr (mid c a sk I s e (Suc k))"
proof (cases "Suc k < unat (m_nPackets a)")
  case True
  then have "of_nat k + 1 < m_nPackets a" using assms(3) by (simp add: word_succ_less)
  with True assms show ?thesis
    by (simp add: fire_def SendPacket_def
        ScheduleTx_def Schedule_def mid_def sends_Suc send_ev_def Let_def min_def
        distrib_right add.assoc)
next
  case False
  then have "\<not> of_nat k + 1 < m_nPackets a" using assms(3) by (simp add: word_succ_less)
  moreover have "unat (m_nPackets a) = Suc k" using False assms(3) by simp
  ultimately show ?thesis using assms(1,2,4)
    by (simp add: fire_def SendPacket_def mid_def sends_Suc send_ev_def Let_def min_def
        distrib_right add.assoc)
qed


lemma mid_events:
  "sim_events (sim (mid c a sk I s e k)) =
     (if k < unat (m_nPackets a)
      then (if s + rat_of_nat k * I < e
            then [send_ev (s + rat_of_nat k * I) (Suc k), stop_ev e]
            else [stop_ev e, send_ev (s + rat_of_nat k * I) (Suc k)])
      else [stop_ev e])"
  by (simp add: mid_def send_ev_def stop_ev_def)

lemma fire_stop_last:
  assumes "m_socket a = Some sk" "0 < k" "k = unat (m_nPackets a)"
  shows "fire (stop_ev e) [] (mid c a sk I s e k) = Inr (fin c a sk I s e k)"
  using assms
  by (simp add: fire_def stop_ev_def StopApplication_def mid_def fin_def IsRunning_def
      pending_uids_def Cancel_def Let_def split: option.splits)

lemma fire_stop_early:
  assumes "m_socket a = Some sk" "0 < k" "k < unat (m_nPackets a)"
  shows "fire (stop_ev e) [send_ev (s + rat_of_nat k * I) (Suc k)] (mid c a sk I s e k)
           = Inr (fin c a sk I s e k)"
  using assms
  by (simp add: fire_def stop_ev_def StopApplication_def mid_def fin_def IsRunning_def
      pending_uids_def Cancel_def Let_def send_ev_def min_def)


lemma Run_Nil: "sim_events (sim w) = [] \<Longrightarrow> Run n h w = Some (Inr w)"
  by (simp add: Run.simps)


lemma Run_fire:
  "sim_events (sim w) = e # es \<Longrightarrow> ev_ts e \<le> h \<Longrightarrow> fire e es w = Inr w' \<Longrightarrow>
   Run (Suc n) h w = Run n h w'"
  by (simp add: Run.simps [of "Suc n"])

lemma Run_mid_steps:
  assumes "m_socket a = Some sk"
    and "Seconds c (tx_interval (m_packetSize a) (m_dataRate a)) = Inr I"
  shows "0 < k \<Longrightarrow> k + d \<le> unat (m_nPackets a) \<Longrightarrow>
         (\<forall>j. k \<le> j \<and> j < k + d \<longrightarrow> s + rat_of_nat j * I < e \<and> s + rat_of_nat j * I \<le> h) \<Longrightarrow>
         Run (d + f) h (mid c a sk I s e k) = Run f h (mid c a sk I s e (k + d))"
proof (induction d arbitrary: k)
  case 0
  then show ?case by simp
next
  case (Suc d)
  have kN: "k < unat (m_nPackets a)" using Suc.prems(2) by simp
  have t: "s + rat_of_nat k * I < e" "s + rat_of_nat k * I \<le> h"
    using Suc.prems(3) by simp_all
  have ev: "sim_events (sim (mid c a sk I s e k)) = send_ev (s + rat_of_nat k * I) (Suc k) # [stop_ev e]"
    using kN t by (simp add: mid_events)
  have "Run (Suc (d + f)) h (mid c a sk I s e k) = Run (d + f) h (mid c a sk I s e (Suc k))"
    using ev
  proof (rule Run_fire)
    show "ev_ts (send_ev (s + rat_of_nat k * I) (Suc k)) \<le> h" using t by (simp add: send_ev_def)
    show "fire (send_ev (s + rat_of_nat k * I) (Suc k)) [stop_ev e] (mid c a sk I s e k)
            = Inr (mid c a sk I s e (Suc k))"
      using assms(1) Suc.prems(1) kN assms(2) by (rule fire_send)
  qed
  also have "\<dots> = Run f h (mid c a sk I s e (Suc k + d))"
    using Suc.prems by (intro Suc.IH) simp_all
  finally show ?case by simp
qed

lemma Run_install_start:
  assumes "m_socket a = Some sk" "0 < unat (m_nPackets a)"
    and "Seconds c (tx_interval (m_packetSize a) (m_dataRate a)) = Inr I" "s \<le> e" "s \<le> h"
  shows "Run (Suc n) h (install_on c a s e) = Run n h (mid c a sk I s e 1)"
proof (rule Run_fire)
  show "sim_events (sim (install_on c a s e)) = start_ev s # [stop_ev e]"
    using assms(4) by (simp add: install_eq)
  show "ev_ts (start_ev s) \<le> h" using assms(5) by (simp add: start_ev_def)
  show "fire (start_ev s) [stop_ev e] (install_on c a s e) = Inr (mid c a sk I s e 1)"
    using assms(1-4) by (rule fire_start)
qed

lemma Run_mid_stop:
  assumes "m_socket a = Some sk" "0 < k" "k \<le> unat (m_nPackets a)"
    and "k = unat (m_nPackets a) \<or> e \<le> s + rat_of_nat k * I" "e \<le> h"
  shows "Run (Suc n) h (mid c a sk I s e k) = Some (Inr (fin c a sk I s e k))"
proof (cases "k = unat (m_nPackets a)")
  case True
  have "Run (Suc n) h (mid c a sk I s e k) = Run n h (fin c a sk I s e k)"
  proof (rule Run_fire)
    show "sim_events (sim (mid c a sk I s e k)) = stop_ev e # []"
      using True by (simp add: mid_events)
    show "ev_ts (stop_ev e) \<le> h" using assms(5) by (simp add: stop_ev_def)
    show "fire (stop_ev e) [] (mid c a sk I s e k) = Inr (fin c a sk I s e k)"
      using assms(1,2) True by (rule fire_stop_last)
  qed
  then show ?thesis by (simp add: Run_Nil fin_def)
next
  case False
  then have kN: "k < unat (m_nPackets a)" and late: "e \<le> s + rat_of_nat k * I"
    using assms(3,4) by simp_all
  have "Run (Suc n) h (mid c a sk I s e k) = Run n h (fin c a sk I s e k)"
  proof (rule Run_fire)
    show "sim_events (sim (mid c a sk I s e k)) = stop_ev e # [send_ev (s + rat_of_nat k * I) (Suc k)]"
      using kN late by (simp add: mid_events)
    show "ev_ts (stop_ev e) \<le> h" using assms(5) by (simp add: stop_ev_def)
    show "fire (stop_ev e) [send_ev (s + rat_of_nat k * I) (Suc k)] (mid c a sk I s e k) = Inr (fin c a sk I s e k)"
      using assms(1,2) kN by (rule fire_stop_early)
  qed
  then show ?thesis by (simp add: Run_Nil fin_def)
qed


lemma Run_install_complete:
  assumes "m_socket a = Some sk"
    and "Seconds c (tx_interval (m_packetSize a) (m_dataRate a)) = Inr I"
    and "s \<le> e" "e \<le> h"
    and "0 < K" "K \<le> unat (m_nPackets a)"
    and "\<forall>j. 0 < j \<and> j < K \<longrightarrow> s + rat_of_nat j * I < e"
    and "K = unat (m_nPackets a) \<or> e \<le> s + rat_of_nat K * I"
  shows "Run (Suc K + f) h (install_on c a s e) = Some (Inr (fin c a sk I s e K))"
proof -
  obtain d where K: "K = 1 + d" using assms(5) by (cases K) simp_all
  have "Run (Suc K + f) h (install_on c a s e) = Run (d + Suc f) h (mid c a sk I s e 1)"
    using Run_install_start [OF assms(1) _ assms(2,3), of h "K + f"] assms(3-6) K by simp
  also have "\<dots> = Run (Suc f) h (mid c a sk I s e (1 + d))"
  proof (rule Run_mid_steps [OF assms(1,2)])
    show "0 < (1::nat)" by simp
    show "1 + d \<le> unat (m_nPackets a)" using assms(6) K by simp
    show "\<forall>j. 1 \<le> j \<and> j < 1 + d \<longrightarrow> s + rat_of_nat j * I < e \<and> s + rat_of_nat j * I \<le> h"
    proof (intro allI impI)
      fix j assume "1 \<le> j \<and> j < 1 + d"
      then have "s + rat_of_nat j * I < e" using assms(7) K by simp
      then show "s + rat_of_nat j * I < e \<and> s + rat_of_nat j * I \<le> h"
        using assms(4) by simp
    qed
  qed
  also have "\<dots> = Some (Inr (fin c a sk I s e K))"
    unfolding K [symmetric] using assms(1,5,6,8,4) by (rule Run_mid_stop)
  finally show ?thesis .
qed



section \<open>Evaluating the double arithmetic\<close>

lemma bit_length_0: "bit_length 0 = 0"
  by (simp add: bit_length.simps)

lemma bit_length_1: "bit_length (Suc 0) = Suc 0"
  by (simp add: bit_length.simps [of "Suc 0"] bit_length_0)

lemma bit_length_numeral: "bit_length (numeral k) = Suc (bit_length (numeral k div 2))"
  by (subst bit_length.simps) simp

lemma floor_rat_numeral: "\<lfloor>(numeral a :: rat) / numeral b\<rfloor> = numeral a div numeral b"
  using floor_divide_of_int_eq [of "numeral a" "numeral b", where ?'a = rat] by simp

lemmas double_eval =
  tx_interval_def fdiv_def double_quot_def double_of_nat_def bit_length_0 bit_length_1
  bit_length_numeral pow2_def round_half_even_def Let_def floor_rat_numeral

text \<open>
  The intervals of the configurations used below. For 1040 bytes at 1 Mbps the
  \<open>double\<close> lies just under 0.00832, so a clock that truncates makes 8319999 ns of it
  and one that rounds 8320000 ns; for 125 bytes at 3000 bit/s it lies just under a
  third of a second.
\<close>

lemma interval_main:
  "tx_interval 1040 1000000 = Finite (4796153459164483 / 576460752303423488)"
  by (simp add: double_eval)

lemma interval_one: "tx_interval 125 1000 = Finite 1"
  by (simp add: double_eval)

lemma interval_third:
  "tx_interval 125 3000 = Finite (6004799503160661 / 18014398509481984)"
  by (simp add: double_eval)

lemma interval_wrap: "tx_interval 536870912 1000000 = Finite 0"
  by (simp add: tx_interval_def fdiv_def)

lemma step_main_truncate:
  "Seconds ns_truncate (tx_interval 1040 1000000) = Inr (8319999 / 1000000000)"
  by (simp add: interval_main Seconds_def ns_truncate_def floor_rat_numeral)


lemma step_one: "Seconds ns_truncate (tx_interval 125 1000) = Inr 1"
  by (simp add: interval_one Seconds_def ns_truncate_def)

lemma step_third:
  "Seconds ns_truncate (tx_interval 125 3000) = Inr (333333333 / 1000000000)"
  by (simp add: interval_third Seconds_def ns_truncate_def floor_rat_numeral)

lemma step_wrap: "Seconds ns_truncate (tx_interval 536870912 1000000) = Inr 0"
  by (simp add: interval_wrap Seconds_def ns_truncate_def)

section \<open>How many packets a run sends\<close>

lemma tx_times_mid: "tx_times (mid c a sk I s e k) = map (\<lambda>j. s + rat_of_nat j * I) [0..<k]"
  by (simp add: tx_times_def mid_def sends_def filter_map comp_def)

lemma tx_times_fin: "tx_times (fin c a sk I s e k) = map (\<lambda>j. s + rat_of_nat j * I) [0..<k]"
  using tx_times_mid [of c a sk I s e k] by (simp add: tx_times_def fin_def)

lemma packets_sent_fin: "packets_sent (fin c a sk I s e k) = k"
  by (simp add: packets_sent_def tx_times_fin)




lemma Setup_fields:
  "m_socket (Setup sock peer ps n dr a) = sock"
  "m_peer (Setup sock peer ps n dr a) = peer"
  "m_packetSize (Setup sock peer ps n dr a) = ps"
  "m_nPackets (Setup sock peer ps n dr a) = n"
  "m_dataRate (Setup sock peer ps n dr a) = dr"
  "m_sendEvent (Setup sock peer ps n dr a) = m_sendEvent a"
  "m_running (Setup sock peer ps n dr a) = m_running a"
  "m_packetsSent (Setup sock peer ps n dr a) = m_packetsSent a"
  by (simp_all add: Setup_def)

lemma sends_before_stop:
  fixes I :: rat
  assumes "0 < I" "j < nat \<lceil>(e - s) / I\<rceil>"
  shows "s + rat_of_nat j * I < e"
proof -
  have "int j < \<lceil>(e - s) / I\<rceil>" using assms(2) by simp
  then have "rat_of_int (int j) < (e - s) / I" by (simp only: less_ceiling_iff)
  then have "rat_of_nat j * I < e - s" using assms(1) by (simp add: pos_less_divide_eq)
  then show ?thesis by simp
qed

lemma stop_before_next:
  fixes I :: rat
  assumes "0 < I" "s < e"
  shows "e \<le> s + rat_of_nat (nat \<lceil>(e - s) / I\<rceil>) * I"
proof -
  have "0 < (e - s) / I" using assms by simp
  then have "0 < \<lceil>(e - s) / I\<rceil>" by (simp only: zero_less_ceiling)
  then have "rat_of_nat (nat \<lceil>(e - s) / I\<rceil>) = rat_of_int \<lceil>(e - s) / I\<rceil>" by simp
  moreover have "(e - s) / I \<le> rat_of_int \<lceil>(e - s) / I\<rceil>" by (rule le_of_int_ceiling)
  ultimately have "(e - s) / I \<le> rat_of_nat (nat \<lceil>(e - s) / I\<rceil>)" by simp
  then have "e - s \<le> rat_of_nat (nat \<lceil>(e - s) / I\<rceil>) * I"
    using assms(1) by (simp add: pos_divide_le_eq)
  then show ?thesis by simp
qed

lemma ceiling_within_budget:
  fixes I D :: rat
  assumes "0 < I" "\<not> rat_of_nat N * I \<le> D"
  shows "nat \<lceil>D / I\<rceil> \<le> N"
proof -
  have "D / I \<le> rat_of_nat N" using assms by (simp add: pos_divide_le_eq)
  then have "D / I \<le> rat_of_int (int N)" by simp
  then have "\<lceil>D / I\<rceil> \<le> int N" by (simp only: ceiling_le_iff)
  then show ?thesis by simp
qed

lemma all_sends_before_stop:
  fixes I :: rat
  assumes "0 \<le> I" "rat_of_nat N * I \<le> e - s" "s < e" "j < N"
  shows "s + rat_of_nat j * I < e"
proof (cases "I = 0")
  case True
  then show ?thesis using assms(3) by simp
next
  case False
  then have "0 < I" using assms(1) by simp
  moreover have "rat_of_nat j < rat_of_nat N" using assms(4) by (simp only: of_nat_less_iff)
  ultimately have "rat_of_nat j * I < rat_of_nat N * I" by (simp only: mult_strict_right_mono)
  then show ?thesis using assms(2) by simp
qed

text \<open>
  A run that reaches the stop time, for any application with a socket, any clock and any
  step \<open>I \<ge> 0\<close> that the clock makes of the interval.
\<close>

lemma run_to_stop:
  assumes sock: "m_socket a = Some sk"
    and int: "Seconds c (tx_interval (m_packetSize a) (m_dataRate a)) = Inr I"
    and I0: "0 \<le> I"
    and K: "K = (if rat_of_nat (unat (m_nPackets a)) * I \<le> e - s then unat (m_nPackets a)
                 else nat \<lceil>(e - s) / I\<rceil>)"
    and N: "0 < unat (m_nPackets a)"
    and t: "s < e" "e \<le> h"
  shows "Run (Suc (unat (m_nPackets a))) h (install_on c a s e)
           = Some (Inr (fin c a sk I s e K))"
proof -
  have facts: "0 < K \<and> K \<le> unat (m_nPackets a) \<and>
      (\<forall>j. 0 < j \<and> j < K \<longrightarrow> s + rat_of_nat j * I < e) \<and>
      (K = unat (m_nPackets a) \<or> e \<le> s + rat_of_nat K * I)"
  proof (cases "rat_of_nat (unat (m_nPackets a)) * I \<le> e - s")
    case True
    then have KN: "K = unat (m_nPackets a)" by (simp add: K)
    have "\<forall>j. 0 < j \<and> j < K \<longrightarrow> s + rat_of_nat j * I < e"
    proof (intro allI impI)
      fix j assume "0 < j \<and> j < K"
      then have "j < unat (m_nPackets a)" by (simp add: KN)
      with I0 True t(1) show "s + rat_of_nat j * I < e" by (rule all_sends_before_stop)
    qed
    then show ?thesis using KN N by simp
  next
    case False
    then have KC: "K = nat \<lceil>(e - s) / I\<rceil>" by (simp add: K)
    have "I \<noteq> 0" using False t(1) by auto
    then have Ipos: "0 < I" using I0 by simp
    have "0 < (e - s) / I" using Ipos t(1) by simp
    then have "0 < nat \<lceil>(e - s) / I\<rceil>" by (simp only: zero_less_nat_eq zero_less_ceiling)
    then have K0: "0 < K" by (simp add: KC)
    have KN: "K \<le> unat (m_nPackets a)"
      unfolding KC using Ipos False by (rule ceiling_within_budget)
    have "\<forall>j. 0 < j \<and> j < K \<longrightarrow> s + rat_of_nat j * I < e"
    proof (intro allI impI)
      fix j assume "0 < j \<and> j < K"
      then have "j < nat \<lceil>(e - s) / I\<rceil>" by (simp add: KC)
      with Ipos show "s + rat_of_nat j * I < e" by (rule sends_before_stop)
    qed
    moreover have "e \<le> s + rat_of_nat K * I"
      unfolding KC using Ipos t(1) by (rule stop_before_next)
    ultimately show ?thesis using K0 KN by simp
  qed
  have "Suc (unat (m_nPackets a)) = Suc K + (unat (m_nPackets a) - K)" using facts by simp
  moreover have "Run (Suc K + (unat (m_nPackets a) - K)) h (install_on c a s e)
      = Some (Inr (fin c a sk I s e K))"
    using sock int less_imp_le [OF t(1)] t(2) facts by (intro Run_install_complete) simp_all
  ultimately show ?thesis by simp
qed




text \<open>The send times of a completed run, for any step the clock makes of the interval.\<close>

lemma run_tx_times_complete:
  assumes "m_socket a = Some sk"
    and "Seconds ns_truncate (tx_interval (m_packetSize a) (m_dataRate a)) = Inr I"
    and "s \<le> e" "e \<le> h"
    and "0 < K" "K \<le> unat (m_nPackets a)"
    and "\<forall>j. 0 < j \<and> j < K \<longrightarrow> s + rat_of_nat j * I < e"
    and "K = unat (m_nPackets a) \<or> e \<le> s + rat_of_nat K * I"
  shows "run_tx_times (Suc K) h (install a s e) = Some (map (\<lambda>j. s + rat_of_nat j * I) [0..<K])"
  using Run_install_complete [OF assms, of 0]
  by (simp add: run_tx_times_def tx_times_fin install_default)

text \<open>
  The rounding counts. For 125 bytes at 3000 bit/s the exact interval is a third of a
  second, of which three fit into a run of one second; the step of the code is
  333333333 ns, and a fourth packet leaves at 999999999 ns, before the stop.
\<close>

lemma rounded_step_sends_a_fourth_packet:
  "run_tx_times 5 1 (install (Setup (Some 0) Address_empty 125 10 3000 MyApp_new) 0 1)
     = Some [0, 333333333 / 1000000000, 666666666 / 1000000000, 999999999 / 1000000000]"
proof -
  have "run_tx_times (Suc 4) 1
          (install (Setup (Some 0) Address_empty 125 10 3000 MyApp_new) 0 1)
        = Some (map (\<lambda>j. 0 + rat_of_nat j * (333333333 / 1000000000)) [0..<4])"
    by (rule run_tx_times_complete [where sk = 0])
      (simp_all add: Setup_fields step_third less_Suc_eq numeral_3_eq_3)
  moreover have "[0..<4] = [0, 1, 2, 3]" by (simp add: upt_rec)
  ultimately show ?thesis by simp
qed


section \<open>The send times\<close>

text \<open>
  The send times of a run are the start time and then one every step, the step being
  what the clock makes of the interval computed in \<open>double\<close>.
\<close>

lemma tx_times_arithmetic_progression:
  fixes ps n :: uint32 and dr :: uint64
  assumes "0 < unat n" "s < e" "e \<le> h"
    and "Seconds clock (tx_interval ps dr) = Inr I" "0 \<le> I"
  shows "\<exists>w. Run (Suc (unat n)) h
               (install_on clock (Setup (Some sk) peer ps n dr MyApp_new) s e)
               = Some (Inr w) \<and>
             tx_times w = map (\<lambda>j. s + rat_of_nat j * I) [0..<packets_sent w]"
proof -
  define a where "a = Setup (Some sk) peer ps n dr MyApp_new"
  have "Run (Suc (unat (m_nPackets a))) h (install_on clock a s e)
      = Some (Inr (fin clock a sk I s e
          (if rat_of_nat (unat (m_nPackets a)) * I \<le> e - s then unat (m_nPackets a)
           else nat \<lceil>(e - s) / I\<rceil>)))"
    using assms by (intro run_to_stop) (simp_all add: a_def Setup_fields)
  then show ?thesis
    unfolding a_def [symmetric] by (simp add: a_def Setup_fields tx_times_fin packets_sent_fin)
qed

text \<open>
  Claim C2. The send times should be the start time and then one every
  \<open>packetSize * 8 / dataRate\<close> seconds. The code multiplies in 32 bits before it
  converts to \<open>double\<close>: for a packet size of 536870912 bytes the product is 0, the
  interval is 0 instead of 4294.967296 s, and the three packets of the run below all
  leave at time 0.
\<close>

theorem tx_times_wrapped_interval:
  "run_tx_times 4 10000
     (install (Setup (Some 0) Address_empty 536870912 3 1000000 MyApp_new) 0 10000)
     = Some [0, 0, 0] \<and>
   tx_interval 536870912 1000000 = Finite 0 \<and>
   map (\<lambda>j. 0 + rat_of_nat j * (536870912 * 8 / 1000000)) [0..<3]
     = [0, 67108864 / 15625, 134217728 / 15625]"
proof -
  note i = interval_wrap
  have "run_tx_times (Suc 3) 10000
          (install (Setup (Some 0) Address_empty 536870912 3 1000000 MyApp_new) 0 10000)
        = Some (map (\<lambda>j. 0 + rat_of_nat j * 0) [0..<3])"
    by (rule run_tx_times_complete [where sk = 0]) (simp_all add: Setup_fields step_wrap)
  moreover have "[0..<3] = [0, 1, 2]" by (simp add: upt_rec)
  ultimately show ?thesis by (simp add: i)
qed


section \<open>Stopping\<close>

lemma IsRunning_Cancel: "\<not> IsRunning ev (Cancel ev s)"
  by (auto simp: IsRunning_def Cancel_def pending_uids_def split: option.splits)

lemma StopApplication_app: "app (StopApplication w) = (app w)\<lparr>m_running := False\<rparr>"
  by (simp add: StopApplication_def Let_def split: option.splits)

lemma StopApplication_sim:
  "sim (StopApplication w) =
     (if IsRunning (m_sendEvent (app w)) (sim w) then Cancel (m_sendEvent (app w)) (sim w)
      else sim w)"
  by (simp add: StopApplication_def Let_def split: option.splits)

lemma StopApplication_sock_log:
  "sock_log (StopApplication w) =
     sock_log w @ (case m_socket (app w) of None \<Rightarrow> []
                   | Some sk \<Rightarrow> [(sim_now (sim w), sk, Close)])"
  by (simp add: StopApplication_def Let_def Cancel_def split: option.splits)

lemma StopApplication_not_pending:
  "\<not> IsRunning (m_sendEvent (app (StopApplication w))) (sim (StopApplication w))"
  by (simp add: StopApplication_app StopApplication_sim IsRunning_Cancel)

text \<open>
  Claim C5. \<open>StopApplication\<close> clears the running flag, cancels the send event if it is
  pending, and closes the socket if there is one. It cannot fail. A second stop leaves
  the application object and the scheduler as the first stop left them, and so does a stop
  of an application that was never started (on the initial world, where there is no
  socket, nothing changes at all). The one trace of a repeated stop is outside the
  application: a socket that exists receives \<open>Close\<close> once more.
\<close>

theorem stop_is_idempotent:
  "m_running (app (StopApplication w)) = False \<and>
   \<not> IsRunning (m_sendEvent (app (StopApplication w))) (sim (StopApplication w)) \<and>
   sim (StopApplication w) =
     (if IsRunning (m_sendEvent (app w)) (sim w) then Cancel (m_sendEvent (app w)) (sim w)
      else sim w) \<and>
   sock_log (StopApplication w) =
     sock_log w @ (case m_socket (app w) of None \<Rightarrow> []
                   | Some sk \<Rightarrow> [(sim_now (sim w), sk, Close)]) \<and>
   app (StopApplication w) = (app w)\<lparr>m_running := False\<rparr> \<and>
   app (StopApplication (StopApplication w)) = app (StopApplication w) \<and>
   sim (StopApplication (StopApplication w)) = sim (StopApplication w) \<and>
   StopApplication initial_world = initial_world"
proof -
  have "sim (StopApplication (StopApplication w)) = sim (StopApplication w)"
    using StopApplication_not_pending [of w]
    by (simp add: StopApplication_sim [of "StopApplication w"])
  moreover have "StopApplication initial_world = initial_world"
    by (simp add: StopApplication_def initial_world_def MyApp_new_def IsRunning_def Let_def)
  moreover have "app (StopApplication (StopApplication w)) = app (StopApplication w)"
    by (simp add: StopApplication_app)
  ultimately show ?thesis
    using StopApplication_not_pending [of w]
    by (simp add: StopApplication_app StopApplication_sim StopApplication_sock_log)
qed

section \<open>The interval when the data rate is zero\<close>

text \<open>
  Claim C7. \<open>ScheduleTx\<close> divides by the bit rate without looking at it. With a bit rate
  of zero the quotient is infinite, or not a number when the 32-bit product
  \<open>m_packetSize * 8\<close> is zero as well, and a running application that schedules its
  next packet ends in the error branch. With any other bit rate that branch is never
  taken.
\<close>

theorem zero_data_rate_interval:
  "tx_interval packetSize 0 = (if packetSize * 8 = 0 then NaN else PosInf) \<and>
   (m_running (app w) \<longrightarrow>
      (ScheduleTx w = Inl NonFiniteInterval) = (m_dataRate (app w) = 0))"
  by (auto simp: tx_interval_def fdiv_def ScheduleTx_def Seconds_def Schedule_def unat_eq_0
      split: if_splits)

theorem zero_data_rate_interval_witness:
  "m_running (app (initial_world
      \<lparr>app := (Setup (Some 0) Address_empty 1040 1000 0 MyApp_new)\<lparr>m_running := True\<rparr>\<rparr>)) \<and>
   ScheduleTx (initial_world
      \<lparr>app := (Setup (Some 0) Address_empty 1040 1000 0 MyApp_new)\<lparr>m_running := True\<rparr>\<rparr>)
     = Inl NonFiniteInterval \<and>
   tx_interval 1040 0 = PosInf"
  using zero_data_rate_interval
    [of 1040 "initial_world
       \<lparr>app := (Setup (Some 0) Address_empty 1040 1000 0 MyApp_new)\<lparr>m_running := True\<rparr>\<rparr>"]
  by (simp add: initial_world_def Setup_def MyApp_new_def)

section \<open>A packet count of zero\<close>

text \<open>
  Claim C10. With a packet count of zero, starting the application still sends one
  packet: \<open>SendPacket\<close> increments the counter before it compares, so the counter is 1,
  above the packet count, and nothing is scheduled (the scheduler is left as it was).
\<close>

theorem start_with_zero_packet_count:
  assumes "m_socket (app w) = Some sk" and "m_nPackets (app w) = 0"
  shows "StartApplication w =
           Inr (w\<lparr>app := (app w)\<lparr>m_running := True, m_packetsSent := 1\<rparr>,
                  sock_log := sock_log w @
                    [(sim_now (sim w), sk, Bind),
                     (sim_now (sim w), sk, Connect (m_peer (app w))),
                     (sim_now (sim w), sk, Send (unat (m_packetSize (app w))))]\<rparr>)
         \<and> \<not> (1 :: uint32) \<le> m_nPackets (app w)"
  using assms by (simp add: StartApplication_def SendPacket_def Let_def)

theorem start_with_zero_packet_count_witness:
  "StartApplication
     (initial_world\<lparr>app := Setup (Some 0) Address_empty 1040 0 1000000 MyApp_new\<rparr>) =
     Inr (initial_world
           \<lparr>app := (Setup (Some 0) Address_empty 1040 0 1000000 MyApp_new)
                     \<lparr>m_running := True, m_packetsSent := 1\<rparr>,
            sock_log := [(0, 0, Bind), (0, 0, Connect Address_empty), (0, 0, Send 1040)]\<rparr>)"
  using start_with_zero_packet_count
    [of "initial_world\<lparr>app := Setup (Some 0) Address_empty 1040 0 1000000 MyApp_new\<rparr>" 0]
  by (simp add: initial_world_def Setup_def MyApp_new_def)

section \<open>The congestion-window observer\<close>

text \<open>
  Claim C9, as the spec has it: the console receives the same sample as the trace file,
  old value included. It does not: for a change from 1 to 2 the console line holds the
  time and 2, and 1 is nowhere in it.
\<close>

theorem cwnd_console_line_counterexample:
  "last (console (CwndChange 1 2 initial_world)) = [Dbl 0, Str tab, U32 2] \<and>
   U32 1 \<notin> set (last (console (CwndChange 1 2 initial_world))) \<and>
   U32 1 \<in> set (last (cwnd_stream (CwndChange 1 2 initial_world)))"
  by (simp add: CwndChange_def initial_world_def Let_def)

text \<open>
  Claim C9, amended. Each call appends exactly one line to the trace stream, holding the
  simulated time, the old and the new window size, separated by tabs, and exactly one
  line to the console, holding the time and the new window size only. The scheduler, the
  application and the socket are left as they were.
\<close>

theorem cwnd_change_records:
  "cwnd_stream (CwndChange oldCwnd newCwnd w) =
     cwnd_stream w @ [[Dbl (sim_now (sim w)), Str tab, U32 oldCwnd, Str tab, U32 newCwnd]] \<and>
   console (CwndChange oldCwnd newCwnd w) =
     console w @ [[Dbl (sim_now (sim w)), Str tab, U32 newCwnd]] \<and>
   sim (CwndChange oldCwnd newCwnd w) = sim w \<and>
   app (CwndChange oldCwnd newCwnd w) = app w \<and>
   sock_log (CwndChange oldCwnd newCwnd w) = sock_log w"
  by (simp add: CwndChange_def Let_def)

section \<open>The invariant of the life cycle\<close>

lemma queue_ok_Nil: "sim_events (sim w) = [] \<Longrightarrow> queue_ok w"
  by (simp add: queue_ok_def)

lemma queue_ok_Cons:
  "sim_events (sim w) = e # es \<Longrightarrow>
   queue_ok w = (es = [] \<and> ev_cb e = SendPacket_cb \<and> m_sendEvent (app w) = Some (ev_uid e) \<and>
                 m_running (app w) \<and> m_packetsSent (app w) < m_nPackets (app w))"
  by (cases es) (simp_all add: queue_ok_def)

lemma created_inv:
  "app w = MyApp_new \<Longrightarrow> sim_events (sim w) = [] \<Longrightarrow> lifecycle_inv Created w"
  by (simp add: lifecycle_inv_def queue_ok_Nil MyApp_new_def)

lemma configure_inv:
  "lifecycle_inv Created w \<Longrightarrow> 0 < nPackets \<Longrightarrow>
   lifecycle_inv Configured (w\<lparr>app := Setup socket address packetSize nPackets dataRate (app w)\<rparr>)"
  by (simp add: lifecycle_inv_def queue_ok_Nil Setup_def)

lemma ScheduleTx_queue:
  assumes "sim_events (sim w) = []" "m_running (app w)" "ScheduleTx w = Inr w'"
  shows "\<exists>ev. sim_events (sim w') = [ev] \<and> ev_cb ev = SendPacket_cb \<and>
              m_sendEvent (app w') = Some (ev_uid ev) \<and> m_running (app w') \<and>
              m_packetsSent (app w') = m_packetsSent (app w) \<and>
              m_nPackets (app w') = m_nPackets (app w)"
  using assms
  by (auto simp: ScheduleTx_def Schedule_def split: sum.splits)

lemma SendPacket_inv:
  assumes ev: "sim_events (sim w) = []" and run: "m_running (app w)"
    and lt: "m_packetsSent (app w) < m_nPackets (app w)"
    and res: "SendPacket w = Inr w'"
  shows "lifecycle_inv Running w'"
proof -
  obtain sk where sk: "m_socket (app w) = Some sk"
    using res by (cases "m_socket (app w)") (simp_all add: SendPacket_def)
  define w2 where "w2 = w\<lparr>sock_log := sock_log w @
      [(sim_now (sim w), sk, Send (unat (m_packetSize (app w))))],
      app := (app w)\<lparr>m_packetsSent := m_packetsSent (app w) + 1\<rparr>\<rparr>"
  have le: "m_packetsSent (app w) + 1 \<le> m_nPackets (app w)" using lt by (rule inc_le)
  have pos: "0 < m_nPackets (app w)" using lt by (simp add: word_less_nat_alt)
  have w2: "sim_events (sim w2) = []" "m_running (app w2)"
    "m_packetsSent (app w2) = m_packetsSent (app w) + 1"
    "m_nPackets (app w2) = m_nPackets (app w)"
    using ev run by (simp_all add: w2_def)
  have step: "SendPacket w =
      (if m_packetsSent (app w2) < m_nPackets (app w2) then ScheduleTx w2 else Inr w2)"
    by (simp add: SendPacket_def sk w2_def Let_def)
  show ?thesis
  proof (cases "m_packetsSent (app w2) < m_nPackets (app w2)")
    case True
    then have "ScheduleTx w2 = Inr w'" using res step by simp
    from ScheduleTx_queue [OF w2(1,2) this] obtain ev where
      q: "sim_events (sim w') = [ev]" "ev_cb ev = SendPacket_cb"
        "m_sendEvent (app w') = Some (ev_uid ev)" "m_running (app w')"
        "m_packetsSent (app w') = m_packetsSent (app w2)"
        "m_nPackets (app w') = m_nPackets (app w2)"
      by blast
    then show ?thesis
      using True le pos w2(3,4) by (simp add: lifecycle_inv_def queue_ok_def)
  next
    case False
    then have "w' = w2" using res step by simp
    then show ?thesis
      using le pos w2 by (simp add: lifecycle_inv_def queue_ok_Nil)
  qed
qed

lemma start_inv:
  assumes "lifecycle_inv Configured w" "StartApplication (at_time t w) = Inr w'"
  shows "lifecycle_inv Running w'"
proof -
  obtain sk where sk: "m_socket (app w) = Some sk"
    using assms(2)
    by (cases "m_socket (app w)") (simp_all add: StartApplication_def at_time_def Let_def)
  define w1 where "w1 = (at_time t w)\<lparr>app := (app w)\<lparr>m_running := True, m_packetsSent := 0\<rparr>,
      sock_log := sock_log w @ [(t, sk, Bind), (t, sk, Connect (m_peer (app w)))]\<rparr>"
  have "SendPacket w1 = Inr w'"
    using assms(2) by (simp add: StartApplication_def at_time_def Let_def sk w1_def)
  moreover have "sim_events (sim w1) = []" "m_running (app w1)"
    "m_packetsSent (app w1) < m_nPackets (app w1)"
    using assms(1) by (simp_all add: w1_def at_time_def lifecycle_inv_def)
  ultimately show ?thesis by (intro SendPacket_inv [of w1 w'])
qed

lemma send_inv:
  assumes "lifecycle_inv Running w" "sim_events (sim w) = e # es" "fire e es w = Inr w'"
  shows "lifecycle_inv Running w'"
proof -
  have q: "es = []" "ev_cb e = SendPacket_cb" "m_running (app w)"
    "m_packetsSent (app w) < m_nPackets (app w)"
    using assms(1,2) by (simp_all add: lifecycle_inv_def queue_ok_Cons)
  define w1 where "w1 = w\<lparr>sim := (sim w)\<lparr>sim_now := ev_ts e, sim_events := es\<rparr>\<rparr>"
  have "SendPacket w1 = Inr w'" using assms(3) q(2) by (simp add: fire_def w1_def)
  moreover have "sim_events (sim w1) = []" "m_running (app w1)"
    "m_packetsSent (app w1) < m_nPackets (app w1)"
    using q by (simp_all add: w1_def)
  ultimately show ?thesis by (intro SendPacket_inv [of w1 w'])
qed

lemma stop_inv:
  assumes "lifecycle_inv p w"
  shows "lifecycle_inv Stopped (StopApplication (at_time t w))"
proof -
  have le: "m_packetsSent (app w) \<le> m_nPackets (app w)" and q: "queue_ok w"
    using assms by (simp_all add: lifecycle_inv_def)
  have "sim_events (sim (StopApplication (at_time t w))) = []"
  proof (cases "sim_events (sim w)")
    case Nil
    then show ?thesis
      by (simp add: StopApplication_sim at_time_def IsRunning_def pending_uids_def
          split: option.splits)
  next
    case (Cons e es)
    then have "es = []" "m_sendEvent (app w) = Some (ev_uid e)"
      using q by (simp_all add: queue_ok_Cons)
    then show ?thesis
      using Cons
      by (simp add: StopApplication_sim at_time_def IsRunning_def pending_uids_def Cancel_def)
  qed
  then show ?thesis
    using le by (simp add: lifecycle_inv_def queue_ok_Nil StopApplication_app at_time_def)
qed

lemma lifecycle_strong: "lifecycle p w \<Longrightarrow> lifecycle_inv p w"
proof (induction rule: lifecycle.induct)
  case (created w)
  then show ?case by (rule created_inv)
next
  case (configure w nPackets socket address packetSize dataRate)
  then show ?case by (intro configure_inv)
next
  case (onStart w t w')
  then show ?case by (intro start_inv [of w t w'])
next
  case (sendStep w e es w')
  then show ?case by (intro send_inv [of w e es w'])
next
  case (onStop p w t)
  then show ?case by (intro stop_inv)
qed

text \<open>
  Claim C4, amended. Along the life cycle (one \<open>Setup\<close> of a fresh object with a
  positive packet count, one start, the send events, any number of stops) every operation
  that returns leaves the sent counter at most the packet count, and the send event that
  the handle \<open>m_sendEvent\<close> refers to is pending only while the application is running
  and the counter is below the packet count.
\<close>

theorem lifecycle_invariant:
  assumes "lifecycle p w"
  shows "m_packetsSent (app w) \<le> m_nPackets (app w) \<and>
         (IsRunning (m_sendEvent (app w)) (sim w) \<longrightarrow>
            m_running (app w) \<and> m_packetsSent (app w) < m_nPackets (app w))"
proof -
  have inv: "lifecycle_inv p w" using assms by (rule lifecycle_strong)
  then have le: "m_packetsSent (app w) \<le> m_nPackets (app w)" and q: "queue_ok w"
    by (simp_all add: lifecycle_inv_def)
  have "m_running (app w) \<and> m_packetsSent (app w) < m_nPackets (app w)"
    if "IsRunning (m_sendEvent (app w)) (sim w)"
  proof (cases "sim_events (sim w)")
    case Nil
    then show ?thesis using that by (simp add: IsRunning_def pending_uids_def split: option.splits)
  next
    case (Cons e es)
    then show ?thesis using q by (simp add: queue_ok_Cons)
  qed
  with le show ?thesis by simp
qed

lemma lifecycle_started: "lifecycle Running started_world"
proof -
  have "lifecycle Created initial_world"
    by (rule lifecycle.created) (simp_all add: initial_world_def)
  then have "lifecycle Configured
      (initial_world\<lparr>app := Setup (Some 0) (InetSocketAddress (Ipv4 10 0 0 2) 1090)
         1040 1000 1000000 (app initial_world)\<rparr>)"
    by (rule lifecycle.configure) simp
  then show ?thesis
  proof (rule lifecycle.onStart [where t = 0])
    show "StartApplication
            (at_time 0
              (initial_world\<lparr>app := Setup (Some 0) (InetSocketAddress (Ipv4 10 0 0 2) 1090)
                 1040 1000 1000000 (app initial_world)\<rparr>)) = Inr started_world"
      by (simp add: StartApplication_def SendPacket_def ScheduleTx_def step_main_truncate
          Schedule_def at_time_def initial_world_def Setup_def MyApp_new_def
          started_world_def Let_def)
  qed (simp add: initial_world_def)
qed

text \<open>
  Claim C4, as the spec has it: the handle is non-null only while the application is
  running and more packets remain. The code never clears the handle: \<open>ScheduleTx\<close>
  is the only place that assigns it. A stop one second after the start leaves the
  application stopped, its send event cancelled, and the handle still set.
\<close>

theorem stale_handle_counterexample:
  "lifecycle Stopped (StopApplication (at_time 1 started_world)) \<and>
   m_sendEvent (app (StopApplication (at_time 1 started_world))) = Some 0 \<and>
   m_running (app (StopApplication (at_time 1 started_world))) = False \<and>
   IsRunning (m_sendEvent (app (StopApplication (at_time 1 started_world))))
     (sim (StopApplication (at_time 1 started_world))) = False"
proof -
  have "lifecycle Stopped (StopApplication (at_time 1 started_world))"
    using lifecycle_started by (rule lifecycle.onStop) (simp add: started_world_def)
  moreover have "m_sendEvent (app (StopApplication (at_time 1 started_world))) = Some 0"
    "m_running (app (StopApplication (at_time 1 started_world))) = False"
    by (simp_all add: StopApplication_app at_time_def started_world_def)
  moreover have "IsRunning (m_sendEvent (app (StopApplication (at_time 1 started_world))))
      (sim (StopApplication (at_time 1 started_world))) = False"
    using StopApplication_not_pending [of "at_time 1 started_world"] by simp
  ultimately show ?thesis by simp
qed

theorem lifecycle_invariant_witness:
  "lifecycle Running started_world \<and>
   m_packetsSent (app started_world) \<le> m_nPackets (app started_world) \<and>
   IsRunning (m_sendEvent (app started_world)) (sim started_world) \<and>
   m_running (app started_world) \<and>
   m_packetsSent (app started_world) < m_nPackets (app started_world)"
proof -
  have "IsRunning (m_sendEvent (app started_world)) (sim started_world)"
    by (simp add: started_world_def IsRunning_def pending_uids_def)
  then show ?thesis
    using lifecycle_started lifecycle_invariant [OF lifecycle_started] by simp
qed

section \<open>Starting twice\<close>

lemma filter_insert_event:
  "length (filter P (insert_event e xs)) = (if P e then Suc (length (filter P xs)) else length (filter P xs))"
  by (induction xs) simp_all

lemma tx_interval_finite: "dr \<noteq> 0 \<Longrightarrow> \<exists>q. tx_interval ps dr = Finite q"
  by (simp add: tx_interval_def fdiv_def unat_eq_0)

lemma start_at_any_time:
  assumes sk: "m_socket (app w) = Some sk"
    and rate: "1 < m_nPackets (app w) \<longrightarrow> m_dataRate (app w) \<noteq> 0"
  shows "\<exists>w'. StartApplication w = Inr w' \<and>
              m_running (app w') \<and> m_packetsSent (app w') = 1 \<and>
              sock_log w' = sock_log w @
                [(sim_now (sim w), sk, Bind),
                 (sim_now (sim w), sk, Connect (m_peer (app w))),
                 (sim_now (sim w), sk, Send (unat (m_packetSize (app w))))] \<and>
              pending_sends w' =
                (if 1 < m_nPackets (app w) then Suc (pending_sends w) else pending_sends w)"
proof (cases "1 < m_nPackets (app w)")
  case True
  then have "m_dataRate (app w) \<noteq> 0" using rate by simp
  then obtain q where "tx_interval (m_packetSize (app w)) (m_dataRate (app w)) = Finite q"
    using tx_interval_finite by blast
  then show ?thesis
    using sk True
    by (simp add: StartApplication_def SendPacket_def ScheduleTx_def Seconds_def Schedule_def
        Let_def pending_sends_def filter_insert_event)
next
  case False
  then show ?thesis
    using sk by (simp add: StartApplication_def SendPacket_def Let_def pending_sends_def)
qed

lemma start_keeps_configuration:
  assumes "StartApplication w = Inr w'"
  shows "m_socket (app w') = m_socket (app w) \<and> m_nPackets (app w') = m_nPackets (app w) \<and>
         m_dataRate (app w') = m_dataRate (app w)"
  using assms
  by (auto simp: StartApplication_def SendPacket_def ScheduleTx_def Schedule_def Let_def
      split: option.splits if_splits sum.splits)

lemma start_twice_in_a_row:
  assumes sk: "m_socket (app w) = Some sk"
    and many: "1 < m_nPackets (app w)" and rate: "m_dataRate (app w) \<noteq> 0"
  shows "\<exists>w1 w2. StartApplication w = Inr w1 \<and> StartApplication w1 = Inr w2 \<and>
                m_packetsSent (app w1) = 1 \<and> m_packetsSent (app w2) = 1 \<and>
                pending_sends w2 = Suc (Suc (pending_sends w))"
proof -
  obtain w1 where w1: "StartApplication w = Inr w1" "m_packetsSent (app w1) = 1"
    "pending_sends w1 = Suc (pending_sends w)"
    using start_at_any_time [of w sk] sk many rate by auto
  have cfg: "m_socket (app w1) = Some sk" "1 < m_nPackets (app w1)"
    "m_dataRate (app w1) \<noteq> 0"
    using start_keeps_configuration [OF w1(1)] sk many rate by simp_all
  obtain w2 where w2: "StartApplication w1 = Inr w2" "m_packetsSent (app w2) = 1"
    "pending_sends w2 = Suc (pending_sends w1)"
    using start_at_any_time [of w1 sk] cfg by auto
  show ?thesis using w1 w2 by simp
qed

lemma lifecycle_pending_sends: "lifecycle p w \<Longrightarrow> pending_sends w \<le> 1"
proof -
  assume "lifecycle p w"
  then have "queue_ok w" using lifecycle_strong [of p w] by (simp add: lifecycle_inv_def)
  then show ?thesis
    by (cases "sim_events (sim w)") (simp_all add: pending_sends_def queue_ok_Cons)
qed

text \<open>
  Claim C6, as the spec has it: a second start without a stop in between resets the
  counter only once and leaves at most one send event pending. In the code it does
  neither. With five packets to send, after a start and one fired send event the
  counter is 2 and one send event is pending; a second start then puts the counter back
  to 1 and leaves two send events pending.
\<close>

theorem second_start_counterexample:
  "observe (and_then
      (StartApplication (initial_world\<lparr>app := Setup (Some 0) Address_empty 125 5 1000 MyApp_new\<rparr>))
      fire_next) = Some (2, 1) \<and>
   observe (and_then (and_then
      (StartApplication (initial_world\<lparr>app := Setup (Some 0) Address_empty 125 5 1000 MyApp_new\<rparr>))
      fire_next) StartApplication) = Some (1, 2)"
  by (simp add: observe_def and_then_def fire_next_def fire_def StartApplication_def
      SendPacket_def ScheduleTx_def step_one Schedule_def
      initial_world_def Setup_def MyApp_new_def Let_def pending_sends_def)

text \<open>
  Claim C6, amended. \<open>StartApplication\<close> has no guard against a second call. Every
  call on an application with a socket (and, if the packet count is above 1, a data rate
  other than 0) succeeds whatever the state of the application: it sets the running
  flag, leaves the sent counter at 1 (it is reset, and one packet is sent at once),
  issues \<open>Bind\<close>, \<open>Connect\<close> and one \<open>Send\<close> at the current time, and adds one send
  event to those already pending if the packet count is above 1, and none otherwise.
  So two calls in a row, with a packet count above 1, both leave the counter at 1 and
  leave two more send events pending than there were. Along the life cycle, with its
  single start, at most one send event is pending at any time.
\<close>

theorem start_is_not_guarded:
  "(lifecycle p w \<longrightarrow> pending_sends w \<le> 1) \<and>
   (m_socket (app w) = Some sk \<and> (1 < m_nPackets (app w) \<longrightarrow> m_dataRate (app w) \<noteq> 0) \<longrightarrow>
      (\<exists>w'. StartApplication w = Inr w' \<and>
            m_running (app w') \<and> m_packetsSent (app w') = 1 \<and>
            sock_log w' = sock_log w @
              [(sim_now (sim w), sk, Bind),
               (sim_now (sim w), sk, Connect (m_peer (app w))),
               (sim_now (sim w), sk, Send (unat (m_packetSize (app w))))] \<and>
            pending_sends w' =
              (if 1 < m_nPackets (app w) then Suc (pending_sends w) else pending_sends w))) \<and>
   (m_socket (app w) = Some sk \<and> 1 < m_nPackets (app w) \<and> m_dataRate (app w) \<noteq> 0 \<longrightarrow>
      (\<exists>w1 w2. StartApplication w = Inr w1 \<and> StartApplication w1 = Inr w2 \<and>
               m_packetsSent (app w1) = 1 \<and> m_packetsSent (app w2) = 1 \<and>
               pending_sends w2 = Suc (Suc (pending_sends w))))"
  using lifecycle_pending_sends [of p w] start_at_any_time [of w sk]
    start_twice_in_a_row [of w sk]
  by blast

theorem start_is_not_guarded_witness:
  "lifecycle Running started_world \<and> pending_sends started_world = 1 \<and>
   m_packetsSent (app (at_time 1 started_world)) = 1 \<and>
   (\<exists>w'. StartApplication (at_time 1 started_world) = Inr w' \<and>
         m_running (app w') \<and> m_packetsSent (app w') = 1 \<and>
         sock_log w' = sock_log started_world @
           [(1, 0, Bind), (1, 0, Connect (InetSocketAddress (Ipv4 10 0 0 2) 1090)),
            (1, 0, Send 1040)] \<and>
         pending_sends w' = 2) \<and>
   (\<exists>w1 w2. StartApplication (at_time 1 started_world) = Inr w1 \<and>
            StartApplication w1 = Inr w2 \<and>
            m_packetsSent (app w1) = 1 \<and> m_packetsSent (app w2) = 1 \<and>
            pending_sends w2 = 3)"
proof -
  have f: "m_socket (app (at_time 1 started_world)) = Some 0"
    "m_dataRate (app (at_time 1 started_world)) \<noteq> 0"
    "1 < m_nPackets (app (at_time 1 started_world))"
    "m_peer (app (at_time 1 started_world)) = InetSocketAddress (Ipv4 10 0 0 2) 1090"
    "unat (m_packetSize (app (at_time 1 started_world))) = 1040"
    "sim_now (sim (at_time 1 started_world)) = 1"
    "sock_log (at_time 1 started_world) = sock_log started_world"
    "pending_sends (at_time 1 started_world) = 1"
    "pending_sends started_world = 1"
    "m_packetsSent (app (at_time 1 started_world)) = 1"
    by (simp_all add: started_world_def at_time_def pending_sends_def)
  have "\<exists>w'. StartApplication (at_time 1 started_world) = Inr w' \<and>
      m_running (app w') \<and> m_packetsSent (app w') = 1 \<and>
      sock_log w' = sock_log (at_time 1 started_world) @
        [(sim_now (sim (at_time 1 started_world)), 0, Bind),
         (sim_now (sim (at_time 1 started_world)), 0,
          Connect (m_peer (app (at_time 1 started_world)))),
         (sim_now (sim (at_time 1 started_world)), 0,
          Send (unat (m_packetSize (app (at_time 1 started_world)))))] \<and>
      pending_sends w' =
        (if 1 < m_nPackets (app (at_time 1 started_world))
         then Suc (pending_sends (at_time 1 started_world))
         else pending_sends (at_time 1 started_world))"
    using start_is_not_guarded [of Running "at_time 1 started_world" 0] f(1,2) by blast
  moreover have "\<exists>w1 w2. StartApplication (at_time 1 started_world) = Inr w1 \<and>
      StartApplication w1 = Inr w2 \<and>
      m_packetsSent (app w1) = 1 \<and> m_packetsSent (app w2) = 1 \<and>
      pending_sends w2 = Suc (Suc (pending_sends (at_time 1 started_world)))"
    using start_is_not_guarded [of Running "at_time 1 started_world" 0] f(1,2,3) by blast
  ultimately show ?thesis
    using lifecycle_started by (simp add: f numeral_2_eq_2 numeral_3_eq_3)
qed

section \<open>The scenario of main\<close>

lemma main_scenario_eq:
  "main_scenario =
     Some \<lparr>sc_nodes = [0, 1, 2, 3],
           sc_links =
             [[\<lparr>nd_node = 0, nd_channel = 0, nd_DataRate = ''5Mbps'', nd_Delay = ''2ms''\<rparr>,
               \<lparr>nd_node = 1, nd_channel = 0, nd_DataRate = ''5Mbps'', nd_Delay = ''2ms''\<rparr>],
              [\<lparr>nd_node = 1, nd_channel = 1, nd_DataRate = ''5Mbps'', nd_Delay = ''2ms''\<rparr>,
               \<lparr>nd_node = 2, nd_channel = 1, nd_DataRate = ''5Mbps'', nd_Delay = ''2ms''\<rparr>],
              [\<lparr>nd_node = 2, nd_channel = 2, nd_DataRate = ''5Mbps'', nd_Delay = ''2ms''\<rparr>,
               \<lparr>nd_node = 3, nd_channel = 2, nd_DataRate = ''5Mbps'', nd_Delay = ''2ms''\<rparr>]],
           sc_rx_error =
             [(\<lparr>nd_node = 1, nd_channel = 0, nd_DataRate = ''5Mbps'', nd_Delay = ''2ms''\<rparr>,
               1 / 100000)],
           sc_blocks = [Ipv4 10 0 0 0, Ipv4 10 0 1 0, Ipv4 10 0 2 0],
           sc_ifaces =
             [(\<lparr>nd_node = 0, nd_channel = 0, nd_DataRate = ''5Mbps'', nd_Delay = ''2ms''\<rparr>,
               Ipv4 10 0 0 1),
              (\<lparr>nd_node = 1, nd_channel = 0, nd_DataRate = ''5Mbps'', nd_Delay = ''2ms''\<rparr>,
               Ipv4 10 0 0 2),
              (\<lparr>nd_node = 1, nd_channel = 1, nd_DataRate = ''5Mbps'', nd_Delay = ''2ms''\<rparr>,
               Ipv4 10 0 1 1),
              (\<lparr>nd_node = 2, nd_channel = 1, nd_DataRate = ''5Mbps'', nd_Delay = ''2ms''\<rparr>,
               Ipv4 10 0 1 2),
              (\<lparr>nd_node = 2, nd_channel = 2, nd_DataRate = ''5Mbps'', nd_Delay = ''2ms''\<rparr>,
               Ipv4 10 0 2 1),
              (\<lparr>nd_node = 3, nd_channel = 2, nd_DataRate = ''5Mbps'', nd_Delay = ''2ms''\<rparr>,
               Ipv4 10 0 2 2)],
           sc_sinks = [(3, InetSocketAddress GetAny 1090)],
           sc_sockets = [(0, 3)],
           sc_generators =
             [(3, Setup (Some 0) (InetSocketAddress (Ipv4 10 0 0 2) 1090) 1040 1000 1000000
                    MyApp_new)],
           sc_start = 0, sc_stop = 20\<rparr>"
  by (simp add: main_scenario_def Let_def Install_def Assign_def Get_def GetAddress_def
      numeral_2_eq_2 [symmetric])

text \<open>
  What the program decides of claim C8. \<open>main\<close> builds four nodes and three
  point-to-point links that join them into a chain; every link has an address block of
  its own, the three blocks differ and no two interfaces share an address; and one error
  model, with the rate attribute 0.00001, is installed as the receive error model of
  exactly one device, the one on the second node of the first link. How the library
  draws its drops from that rate, and whether the rate counts per packet, per byte or per
  bit, is outside the program: \<open>main\<close> sets the rate only.
\<close>

theorem topology_is_a_chain:
  "\<exists>sc. main_scenario = Some sc \<and>
     length (sc_nodes sc) = 4 \<and> distinct (sc_nodes sc) \<and>
     length (sc_links sc) = 3 \<and> is_chain sc \<and>
     length (sc_blocks sc) = 3 \<and> distinct (sc_blocks sc) \<and>
     map (\<lambda>x. (nd_channel (fst x), block_of (snd x))) (sc_ifaces sc) =
       [(0, sc_blocks sc ! 0), (0, sc_blocks sc ! 0), (1, sc_blocks sc ! 1),
        (1, sc_blocks sc ! 1), (2, sc_blocks sc ! 2), (2, sc_blocks sc ! 2)] \<and>
     distinct (map snd (sc_ifaces sc)) \<and>
     map (\<lambda>x. (nd_channel (fst x), nd_node (fst x), snd x)) (sc_rx_error sc) =
       [(0, 1, 1 / 100000)]"
  by (simp add: main_scenario_eq is_chain_def)

text \<open>
  Claim C3. There is one sink and one generator, but the flow does not reach the sink:
  the socket is created on \<open>term_3\<close> and the application is added to \<open>term_3\<close>, the
  node of the sink, and its peer address 10.0.0.2 belongs to \<open>term_1\<close>, where no sink
  listens.
\<close>

theorem generator_on_the_sink_node:
  "\<exists>sc. main_scenario = Some sc \<and>
     map fst (sc_sinks sc) = [3] \<and> map fst (sc_generators sc) = [3] \<and>
     map (\<lambda>g. m_peer (snd g)) (sc_generators sc) = [InetSocketAddress (Ipv4 10 0 0 2) 1090] \<and>
     nodes_of_ip sc (Ipv4 10 0 0 2) = [1] \<and>
     nodes_of_ip sc (Ipv4 10 0 2 2) = [3] \<and>
     \<not> flow_reaches_sink sc"
  by (simp add: main_scenario_eq nodes_of_ip_def flow_reaches_sink_def Setup_def MyApp_new_def)

end
